theory Spec2Isabelle
  imports Complex_Main "HOL-Library.Log_Nat"
begin

section \<open>The planning tables\<close>

text \<open>
  The three route handlers work on three SQL tables: \<open>tasks\<close>, \<open>planning_questions\<close> and
  \<open>planning_specs\<close>. A table is a list of rows in insertion order; \<open>.get\<close> returns the first
  row that matches, \<open>.all\<close> every row that matches, and an \<open>UPDATE\<close> rewrites every row its
  \<open>WHERE\<close> selects. Only the columns that the handlers read or write are kept.

  The \<open>options\<close> column holds the text that \<open>JSON.stringify\<close> produced from an array of
  \<open>{id, label}\<close> objects, and every reader passes it through \<open>JSON.parse\<close>; the column is
  modelled by the array it denotes.

  The schema is not among the source files, so no constraint of the tables is modelled: an
  \<open>INSERT\<close> appends its row. The handlers' catch-all branch (status 500, for a request body
  that is no JSON object or a failing database call) has no counterpart; the one 500 response
  that a handler returns by itself is the branch \<open>InternalFailure\<close> below. The fields of a
  request body are strings or missing.
\<close>

datatype PlanningCategory =
  goal | audience | scope | design | content | technical | timeline | constraints

record PlanningQuestionOption =
  opt_id :: string
  label :: string

record question_row =
  q_id :: string
  task_id :: string
  category :: PlanningCategory
  question :: string
  question_type :: string
  options :: "PlanningQuestionOption list option"
  answer :: "string option"
  answered_at :: "string option"
  sort_order :: nat

record task_row =
  t_id :: string
  status :: string

record spec_row =
  s_id :: string
  s_task_id :: string
  spec_markdown :: string
  s_created_at :: string

record db =
  tasks :: "task_row list"
  planning_questions :: "question_row list"
  planning_specs :: "spec_row list"

record progress_counts =
  total_n :: nat
  answered :: nat
  percentage :: int

record PlanningState =
  questions :: "question_row list"
  spec :: "spec_row option"
  progress :: progress_counts
  isLocked :: bool

text \<open>
  The outcomes other than success. \<open>InvalidInput\<close> is the 400 response
  "questionId and answer are required", \<open>NotFound\<close> the 404 responses, \<open>Locked\<close> the 400
  response "Spec is locked, cannot modify answers", \<open>AlreadyGenerated\<close> the 400 response
  "Questions already generated" and \<open>InternalFailure\<close> the 500 responses. \<open>AlreadyLocked\<close> and
  \<open>Incomplete\<close> belong to the lock transition.
\<close>

datatype error =
  InvalidInput | NotFound | Locked | AlreadyGenerated | InternalFailure
  | AlreadyLocked | Incomplete

section \<open>Question templates\<close>

record template =
  tpl_question :: string
  tpl_options :: "string list option"

fun QUESTION_TEMPLATES :: "PlanningCategory \<Rightarrow> template list" where
  "QUESTION_TEMPLATES goal =
     [\<lparr>tpl_question = ''What is the primary outcome or goal of this task?'',
       tpl_options = Some [''Generate leads/sales'', ''Provide information'',
         ''Collect user data'', ''Build brand awareness'', ''Other'']\<rparr>,
      \<lparr>tpl_question = ''How will you measure success?'',
       tpl_options = Some [''Conversion rate'', ''Page views/traffic'', ''Form submissions'',
         ''User engagement'', ''Other'']\<rparr>]"
| "QUESTION_TEMPLATES audience =
     [\<lparr>tpl_question = ''Who is the primary target audience?'',
       tpl_options = Some [''B2B professionals'', ''B2C consumers'', ''Existing customers'',
         ''New prospects'', ''Other'']\<rparr>,
      \<lparr>tpl_question = ''What problem does your audience face that this addresses?'',
       tpl_options = None\<rparr>]"
| "QUESTION_TEMPLATES scope =
     [\<lparr>tpl_question = ''What is included in this task?'', tpl_options = None\<rparr>,
      \<lparr>tpl_question = ''What is explicitly NOT included (out of scope)?'',
       tpl_options = None\<rparr>]"
| "QUESTION_TEMPLATES design =
     [\<lparr>tpl_question = ''Are there any reference sites or designs to follow?'',
       tpl_options = None\<rparr>,
      \<lparr>tpl_question = ''What is the visual style/tone?'',
       tpl_options = Some [''Professional/Corporate'', ''Modern/Minimal'', ''Bold/Creative'',
         ''Friendly/Casual'', ''Other'']\<rparr>,
      \<lparr>tpl_question = ''Do you have brand colors or assets to use?'',
       tpl_options = Some [''Yes, I will provide them'', ''No, use your best judgment'',
         ''Use existing brand from website'', ''Other'']\<rparr>]"
| "QUESTION_TEMPLATES content =
     [\<lparr>tpl_question = ''Do you have the content/copy ready?'',
       tpl_options = Some [''Yes, I will provide it'', ''No, please write it'',
         ''I have rough notes to expand'', ''Other'']\<rparr>,
      \<lparr>tpl_question = ''Are there specific messages or points that must be included?'',
       tpl_options = None\<rparr>]"
| "QUESTION_TEMPLATES technical =
     [\<lparr>tpl_question = ''What technology/platform should be used?'',
       tpl_options = Some [''Static HTML/CSS'', ''React/Next.js'', ''WordPress'',
         ''No preference'', ''Other'']\<rparr>,
      \<lparr>tpl_question = ''Are there any integrations needed?'',
       tpl_options = Some [''Form submission to email'', ''CRM integration'',
         ''Analytics tracking'', ''None needed'', ''Other'']\<rparr>]"
| "QUESTION_TEMPLATES timeline =
     [\<lparr>tpl_question = ''When do you need this completed?'',
       tpl_options = Some [''ASAP (within 24 hours)'', ''This week'', ''Next week'',
         ''No rush'', ''Specific date'']\<rparr>]"
| "QUESTION_TEMPLATES constraints =
     [\<lparr>tpl_question = ''Are there any specific constraints or requirements?'',
       tpl_options = None\<rparr>,
      \<lparr>tpl_question = ''Is there a budget or resource limit?'',
       tpl_options = Some [''No budget limit'', ''Keep it simple/minimal'',
         ''Medium complexity okay'', ''Other'']\<rparr>]"

definition categories :: "PlanningCategory list" where
  "categories = [goal, audience, scope, design, content, technical, timeline, constraints]"

section \<open>Double-precision arithmetic\<close>

text \<open>
  The percentage is computed on JavaScript numbers, which are IEEE 754 doubles: every
  arithmetic result is the exact result rounded to the nearest number with a 53-bit
  significand, ties going to the even significand. \<open>binade q\<close> is the exponent \<open>e\<close> with
  \<open>2^e \<le> q < 2^(e+1)\<close>, and \<open>fl q\<close> the double nearest to \<open>q\<close>. Overflow and subnormal
  numbers are left out: the quotients of two array lengths and their products with 100
  lie between \<open>2^-32\<close> and 100.
\<close>

definition binade :: "rat \<Rightarrow> int" where
  "binade q = (let (n, d) = quotient_of q; k = bitlen n - bitlen d
               in if 2 powi k \<le> q then k else k - 1)"

definition round_half_even :: "rat \<Rightarrow> int" where
  "round_half_even z = (let f = \<lfloor>z\<rfloor>; r = z - of_int f
     in if r < 1/2 then f else if 1/2 < r then f + 1 else if even f then f else f + 1)"

definition fl :: "rat \<Rightarrow> rat" where
  "fl q = (if q = 0 then 0 else
     let u = 2 powi (binade \<bar>q\<bar> - 52)
     in sgn q * of_int (round_half_even (\<bar>q\<bar> / u)) * u)"

text \<open>\<open>Math.round\<close> returns the nearest integer, a tie going up.\<close>

definition Math_round :: "rat \<Rightarrow> int" where
  "Math_round y = \<lfloor>y + 1/2\<rfloor>"

text \<open>\<open>total > 0 ? Math.round((answered / total) * 100) : 0\<close>\<close>

definition percentage_of :: "nat \<Rightarrow> nat \<Rightarrow> int" where
  "percentage_of tot ans =
     (if tot > 0 then Math_round (fl (fl (of_nat ans / of_nat tot) * 100)) else 0)"

section \<open>Queries\<close>

text \<open>A JavaScript value is truthy unless it is \<open>null\<close>, \<open>undefined\<close> or the empty string.\<close>

definition truthy :: "string option \<Rightarrow> bool" where
  "truthy v = (case v of None \<Rightarrow> False | Some s \<Rightarrow> s \<noteq> [])"

definition select_task :: "db \<Rightarrow> string \<Rightarrow> task_row option" where
  "select_task d taskId = find (\<lambda>t. t_id t = taskId) (tasks d)"

definition select_questions :: "db \<Rightarrow> string \<Rightarrow> question_row list" where
  "select_questions d taskId =
     sort_key sort_order (filter (\<lambda>q. task_id q = taskId) (planning_questions d))"

definition count_questions :: "db \<Rightarrow> string \<Rightarrow> nat" where
  "count_questions d taskId = length (filter (\<lambda>q. task_id q = taskId) (planning_questions d))"

definition select_spec :: "db \<Rightarrow> string \<Rightarrow> spec_row option" where
  "select_spec d taskId = find (\<lambda>s. s_task_id s = taskId) (planning_specs d)"

text \<open>\<open>q.options ? JSON.parse(q.options) : undefined\<close>\<close>

definition parse_options :: "question_row \<Rightarrow> question_row" where
  "parse_options q = q\<lparr>options := (case options q of None \<Rightarrow> None | Some os \<Rightarrow> Some os)\<rparr>"

section \<open>GET /api/tasks/[id]/planning\<close>

definition GET_planning :: "db \<Rightarrow> string \<Rightarrow> error + PlanningState" where
  "GET_planning d taskId =
     (case select_task d taskId of
        None \<Rightarrow> Inl NotFound
      | Some task \<Rightarrow>
          let parsedQuestions = map parse_options (select_questions d taskId);
              sp = select_spec d taskId;
              ans = length (filter (\<lambda>q. truthy (answer q)) parsedQuestions);
              tot = length parsedQuestions
          in Inr \<lparr>questions = parsedQuestions,
                  spec = sp,
                  progress = \<lparr>total_n = tot, answered = ans,
                              percentage = percentage_of tot ans\<rparr>,
                  isLocked = (sp \<noteq> None)\<rparr>)"

section \<open>POST /api/tasks/[id]/planning\<close>

text \<open>
  \<open>String.fromCharCode\<close>; a \<open>char\<close> of HOL has eight bits, so the model agrees with
  JavaScript for codes below 256.
\<close>

definition fromCharCode :: "nat \<Rightarrow> string" where
  "fromCharCode n = [char_of n]"

definition stringify_options :: "string list \<Rightarrow> PlanningQuestionOption list" where
  "stringify_options ls =
     map (\<lambda>(idx, l). \<lparr>opt_id = fromCharCode (65 + idx), label = l\<rparr>) (enumerate 0 ls)"

text \<open>
  The body of the inner loop builds one row; \<open>uuid k\<close> is the identifier that the
  \<open>k\<close>-th call of \<open>crypto.randomUUID\<close> in the request returns.
\<close>

definition new_question ::
  "(nat \<Rightarrow> string) \<Rightarrow> string \<Rightarrow> PlanningCategory \<Rightarrow> template \<Rightarrow> nat \<Rightarrow> question_row" where
  "new_question uuid taskId cat t sortOrder =
     \<lparr>q_id = uuid sortOrder,
      task_id = taskId,
      category = cat,
      question = tpl_question t,
      question_type = (case tpl_options t of Some os \<Rightarrow> ''multiple_choice'' | None \<Rightarrow> ''text''),
      options = (case tpl_options t of Some os \<Rightarrow> Some (stringify_options os) | None \<Rightarrow> None),
      answer = None,
      answered_at = None,
      sort_order = sortOrder\<rparr>"

fun templates_loop ::
  "(nat \<Rightarrow> string) \<Rightarrow> string \<Rightarrow> PlanningCategory \<Rightarrow> template list \<Rightarrow>
   question_row list \<times> nat \<Rightarrow> question_row list \<times> nat" where
  "templates_loop uuid taskId cat [] (rows, sortOrder) = (rows, sortOrder)"
| "templates_loop uuid taskId cat (t # ts) (rows, sortOrder) =
     templates_loop uuid taskId cat ts
       (rows @ [new_question uuid taskId cat t sortOrder], sortOrder + 1)"

fun categories_loop ::
  "(nat \<Rightarrow> string) \<Rightarrow> string \<Rightarrow> PlanningCategory list \<Rightarrow>
   question_row list \<times> nat \<Rightarrow> question_row list \<times> nat" where
  "categories_loop uuid taskId [] st = st"
| "categories_loop uuid taskId (c # cs) st =
     categories_loop uuid taskId cs (templates_loop uuid taskId c (QUESTION_TEMPLATES c) st)"

definition POST_planning :: "db \<Rightarrow> (nat \<Rightarrow> string) \<Rightarrow> string \<Rightarrow> db \<times> (error + PlanningState)" where
  "POST_planning d uuid taskId =
     (case select_task d taskId of
        None \<Rightarrow> (d, Inl NotFound)
      | Some task \<Rightarrow>
          if count_questions d taskId > 0 then (d, Inl AlreadyGenerated)
          else
            let d1 = d\<lparr>tasks := map (\<lambda>t. if t_id t = taskId then t\<lparr>status := ''planning''\<rparr> else t)
                                   (tasks d)\<rparr>;
                (rows, sortOrder) = categories_loop uuid taskId categories (planning_questions d1, 0);
                d2 = d1\<lparr>planning_questions := rows\<rparr>;
                parsedQuestions = map parse_options (select_questions d2 taskId)
            in (d2, Inr \<lparr>questions = parsedQuestions,
                         spec = None,
                         progress = \<lparr>total_n = length parsedQuestions, answered = 0,
                                     percentage = 0\<rparr>,
                         isLocked = False\<rparr>))"

section \<open>POST /api/tasks/[id]/planning/answer\<close>

text \<open>
  \<open>now\<close> is what \<open>datetime('now')\<close> evaluates to during the request; \<open>questionId\<close> and
  \<open>ans\<close> are the two fields of the request body, \<open>None\<close> when the field is missing.
\<close>

definition update_answer :: "string \<Rightarrow> string \<Rightarrow> string \<Rightarrow> question_row list \<Rightarrow> question_row list" where
  "update_answer ans now qid rows =
     map (\<lambda>q. if q_id q = qid then q\<lparr>answer := Some ans, answered_at := Some now\<rparr> else q) rows"

definition POST_answer ::
  "db \<Rightarrow> string \<Rightarrow> string \<Rightarrow> string option \<Rightarrow> string option \<Rightarrow> db \<times> (error + question_row)" where
  "POST_answer d now taskId questionId ans =
     (if \<not> truthy questionId \<or> \<not> truthy ans then (d, Inl InvalidInput)
      else (case (questionId, ans) of
        (Some qid, Some a) \<Rightarrow>
          (case find (\<lambda>q. q_id q = qid \<and> task_id q = taskId) (planning_questions d) of
             None \<Rightarrow> (d, Inl NotFound)
           | Some q0 \<Rightarrow>
               (case select_spec d taskId of
                  Some sp \<Rightarrow> (d, Inl Locked)
                | None \<Rightarrow>
                    let d' = d\<lparr>planning_questions := update_answer a now qid (planning_questions d)\<rparr>
                    in (case find (\<lambda>q. q_id q = qid) (planning_questions d') of
                          None \<Rightarrow> (d', Inl InternalFailure)
                        | Some updatedQuestion \<Rightarrow> (d', Inr (parse_options updatedQuestion)))))
      | _ \<Rightarrow> (d, Inl InvalidInput)))"

section \<open>The lock button of the planning tab\<close>

text \<open>
  The component shows the generate page while there are no questions and the locked page
  once \<open>isLocked\<close> holds with a spec; otherwise the lock button is rendered exactly when
  \<open>state.progress.percentage === 100\<close>.
\<close>

definition lock_button_shown :: "PlanningState \<Rightarrow> bool" where
  "lock_button_shown st =
     (questions st \<noteq> [] \<and> \<not> (isLocked st \<and> spec st \<noteq> None)
      \<and> percentage (progress st) = 100)"

section \<open>The lock transition and the reachable stores\<close>




section \<open>The sequence of templates and example stores\<close>

text \<open>The (category, template) pairs in the order in which the nested loop visits them.\<close>

definition template_sequence :: "(PlanningCategory \<times> template) list" where
  "template_sequence = concat (map (\<lambda>c. map (Pair c) (QUESTION_TEMPLATES c)) categories)"

text \<open>
  The rows that one run of the generation loop appends: the \<open>i\<close>-th pair of the sequence
  gives the row with sort position \<open>i\<close>.
\<close>

definition generated :: "(nat \<Rightarrow> string) \<Rightarrow> string \<Rightarrow> question_row list" where
  "generated uuid taskId =
     map (\<lambda>(i, (c, t)). new_question uuid taskId c t i) (enumerate 0 template_sequence)"

definition alphabet :: string where
  "alphabet = ''ABCDEFGHIJKLMNOPQRSTUVWXYZ''"

definition example_question ::
  "string \<Rightarrow> string \<Rightarrow> nat \<Rightarrow> PlanningQuestionOption list option \<Rightarrow> string option \<Rightarrow> question_row" where
  "example_question qid taskId n os a =
     \<lparr>q_id = qid, task_id = taskId, category = goal, question = ''Why?'',
      question_type = (case os of None \<Rightarrow> ''text'' | Some cs \<Rightarrow> ''multiple_choice''),
      options = os, answer = a,
      answered_at = (case a of None \<Rightarrow> None | Some v \<Rightarrow> Some ''2024-01-01 00:00:00''),
      sort_order = n\<rparr>"

definition example_choices :: "PlanningQuestionOption list" where
  "example_choices = [\<lparr>opt_id = ''A'', label = ''Yes''\<rparr>, \<lparr>opt_id = ''B'', label = ''Other''\<rparr>]"

text \<open>
  A store with an open task \<open>t1\<close> (three questions, the first answered, the third a
  multiple-choice question), a locked task \<open>t2\<close> (one question, answered) and an open task
  \<open>t3\<close> whose only question is answered, and a store with a task and no planning rows.
\<close>

definition example_db :: db where
  "example_db =
     \<lparr>tasks = [\<lparr>t_id = ''t1'', status = ''planning''\<rparr>, \<lparr>t_id = ''t2'', status = ''planning''\<rparr>,
               \<lparr>t_id = ''t3'', status = ''planning''\<rparr>],
      planning_questions =
        [example_question ''q1'' ''t1'' 0 None (Some ''yes''),
         example_question ''q2'' ''t1'' 1 None None,
         example_question ''q3'' ''t1'' 2 (Some example_choices) None,
         example_question ''q9'' ''t2'' 0 None (Some ''done''),
         example_question ''q7'' ''t3'' 0 None (Some ''ok'')],
      planning_specs =
        [\<lparr>s_id = ''s1'', s_task_id = ''t2'', spec_markdown = ''# Spec'',
          s_created_at = ''2024-01-02 00:00:00''\<rparr>]\<rparr>"

definition fresh_db :: db where
  "fresh_db = \<lparr>tasks = [\<lparr>t_id = ''t1'', status = ''inbox''\<rparr>],
               planning_questions = [], planning_specs = []\<rparr>"

definition example_uuid :: "nat \<Rightarrow> string" where
  "example_uuid k = ''uuid-'' @ replicate k CHR ''x''"

section \<open>Properties of the double-precision model\<close>

lemma bitlen_powi_bounds:
  assumes "0 < n"
  shows "(2::rat) powi (bitlen n - 1) \<le> of_int n" "of_int n < (2::rat) powi (bitlen n)"
proof -
  from assms have b1: "1 \<le> bitlen n" by (auto simp: bitlen_alt_def)
  from bitlen_bounds[OF assms] have lo: "2 ^ nat (bitlen n - 1) \<le> n" and hi: "n < 2 ^ nat (bitlen n)"
    by auto
  have "(of_int (2 ^ nat (bitlen n - 1)) :: rat) \<le> of_int n" using lo by (simp only: of_int_le_iff)
  then show "(2::rat) powi (bitlen n - 1) \<le> of_int n" using b1 by (simp add: power_int_def)
  have "(of_int n :: rat) < of_int (2 ^ nat (bitlen n))" using hi by (simp only: of_int_less_iff)
  then show "of_int n < (2::rat) powi (bitlen n)" using b1 by (simp add: power_int_def)
qed

lemma binade_bounds:
  assumes "0 < q"
  shows "2 powi (binade q) \<le> q" "q < 2 powi (binade q + 1)"
proof -
  obtain n d where qd: "quotient_of q = (n, d)" by (cases "quotient_of q")
  then have d: "0 < d" and q: "q = of_int n / of_int d"
    by (auto simp: quotient_of_denom_pos quotient_of_div)
  from assms q d have n: "0 < n" by (simp add: zero_less_divide_iff)
  define k where "k = bitlen n - bitlen d"
  have dr: "(0::rat) < of_int d" using d by simp
  have p: "(0::rat) < 2 powi j" for j by simp
  have A: "of_int n < (2::rat) powi (bitlen n)" by (rule bitlen_powi_bounds[OF n])
  have B: "(2::rat) powi (bitlen d - 1) \<le> of_int d" by (rule bitlen_powi_bounds[OF d])
  have C: "(2::rat) powi (bitlen n - 1) \<le> of_int n" by (rule bitlen_powi_bounds[OF n])
  have D: "of_int d < (2::rat) powi (bitlen d)" by (rule bitlen_powi_bounds[OF d])
  have "q < 2 powi (bitlen n) / of_int d"
    unfolding q using A dr by (simp add: divide_strict_right_mono)
  also have "\<dots> \<le> 2 powi (bitlen n) / 2 powi (bitlen d - 1)"
    using B p by (simp add: frac_le)
  also have "\<dots> = 2 powi (k + 1)"
    unfolding k_def by (simp add: power_int_diff power_int_add)
  finally have up: "q < 2 powi (k + 1)" .
  have "(2::rat) powi (k - 1) = 2 powi (bitlen n - 1) / 2 powi (bitlen d)"
    unfolding k_def by (simp add: power_int_diff)
  also have "\<dots> \<le> of_int n / 2 powi (bitlen d)"
    using C by (simp add: divide_right_mono)
  also have "\<dots> \<le> of_int n / of_int d"
    using D dr n by (simp add: frac_le)
  finally have lo: "2 powi (k - 1) \<le> q" unfolding q .
  have b: "binade q = (if 2 powi k \<le> q then k else k - 1)"
    by (simp add: binade_def qd k_def Let_def)
  show "2 powi (binade q) \<le> q" using lo by (simp add: b)
  show "q < 2 powi (binade q + 1)" using up by (auto simp add: b)
qed

lemma round_half_even_of_int: "round_half_even (of_int n) = n"
  by (simp add: round_half_even_def)

lemma round_half_even_mono:
  assumes "z1 \<le> z2" shows "round_half_even z1 \<le> round_half_even z2"
proof -
  have f: "\<lfloor>z1\<rfloor> \<le> \<lfloor>z2\<rfloor>" using assms by (rule floor_mono)
  have lo: "\<lfloor>z\<rfloor> \<le> round_half_even z" and hi: "round_half_even z \<le> \<lfloor>z\<rfloor> + 1" for z
    by (simp_all add: round_half_even_def Let_def)
  show ?thesis
  proof (cases "\<lfloor>z1\<rfloor> = \<lfloor>z2\<rfloor>")
    case True
    then show ?thesis using assms by (auto simp: round_half_even_def Let_def)
  next
    case False
    with f have "\<lfloor>z1\<rfloor> + 1 \<le> \<lfloor>z2\<rfloor>" by simp
    with hi[of z1] lo[of z2] show ?thesis by linarith
  qed
qed

lemma round_half_even_error: "\<bar>of_int (round_half_even z) - z\<bar> \<le> 1/2"
proof -
  have "of_int \<lfloor>z\<rfloor> \<le> z" "z < of_int \<lfloor>z\<rfloor> + 1" by linarith+
  then show ?thesis by (auto simp: round_half_even_def Let_def abs_le_iff)
qed


lemma fl_pos:
  assumes "0 < q"
  shows "fl q = of_int (round_half_even (q / 2 powi (binade q - 52))) * 2 powi (binade q - 52)"
  using assms by (simp add: fl_def Let_def)

lemma fl_zero: "fl 0 = 0"
  by (simp add: fl_def)

lemma scaled_bounds:
  assumes "0 < q"
  shows "2 ^ 52 \<le> q / 2 powi (binade q - 52)" "q / 2 powi (binade q - 52) \<le> 2 ^ 53"
proof -
  define r where "r = q / 2 powi (binade q)"
  have p: "(0::rat) < 2 powi (binade q)" by simp
  from binade_bounds[OF assms] have lo: "2 powi (binade q) \<le> q" and hi: "q < 2 powi (binade q) * 2"
    by (simp_all add: power_int_add)
  have s: "q / 2 powi (binade q - 52) = r * 2 ^ 52"
    by (simp add: r_def power_int_diff)
  have r1: "1 \<le> r" unfolding r_def using lo p by (simp add: le_divide_eq)
  have r2: "r \<le> 2" unfolding r_def using hi p by (simp add: divide_le_eq mult.commute)
  have "1 * 2 ^ 52 \<le> r * 2 ^ 52" using r1 by (rule mult_right_mono) simp
  then show "2 ^ 52 \<le> q / 2 powi (binade q - 52)" by (simp only: s mult_1)
  have "r * 2 ^ 52 \<le> 2 * 2 ^ 52" using r2 by (rule mult_right_mono) simp
  then show "q / 2 powi (binade q - 52) \<le> 2 ^ 53" by (simp only: s) simp
qed

lemma fl_bounds:
  assumes "0 < q"
  shows "2 powi (binade q) \<le> fl q" "fl q \<le> 2 powi (binade q + 1)"
proof -
  let ?u = "(2::rat) powi (binade q - 52)"
  let ?m = "round_half_even (q / ?u)"
  have u: "0 < ?u" by simp
  have "round_half_even (of_int (2 ^ 52)) \<le> ?m"
    using scaled_bounds(1)[OF assms] by (intro round_half_even_mono) simp
  then have lo: "2 ^ 52 \<le> ?m" by (simp only: round_half_even_of_int)
  have "?m \<le> round_half_even (of_int (2 ^ 53))"
    using scaled_bounds(2)[OF assms] by (intro round_half_even_mono) simp
  then have hi: "?m \<le> 2 ^ 53" by (simp only: round_half_even_of_int)
  have "2 powi (binade q) = 2 ^ 52 * ?u" by (simp add: power_int_diff)
  also have "\<dots> \<le> of_int ?m * ?u"
  proof (rule mult_right_mono)
    have "(of_int (2 ^ 52) :: rat) \<le> of_int ?m" using lo by (simp only: of_int_le_iff)
    then show "(2 ^ 52 :: rat) \<le> of_int ?m" by simp
  qed simp
  finally show "2 powi (binade q) \<le> fl q" by (simp only: fl_pos[OF assms])
  have "of_int ?m * ?u \<le> 2 ^ 53 * ?u"
  proof (rule mult_right_mono)
    have "(of_int ?m :: rat) \<le> of_int (2 ^ 53)" using hi by (simp only: of_int_le_iff)
    then show "(of_int ?m :: rat) \<le> 2 ^ 53" by simp
  qed simp
  also have "\<dots> = 2 powi (binade q + 1)" by (simp add: power_int_diff power_int_add)
  finally show "fl q \<le> 2 powi (binade q + 1)" by (simp only: fl_pos[OF assms])
qed

lemma binade_mono:
  assumes "0 < q1" "q1 \<le> q2"
  shows "binade q1 \<le> binade q2"
proof (rule ccontr)
  assume "\<not> binade q1 \<le> binade q2"
  then have "binade q2 + 1 \<le> binade q1" by simp
  then have "(2::rat) powi (binade q2 + 1) \<le> 2 powi (binade q1)"
    by (rule power_int_increasing) simp
  also have "\<dots> \<le> q1" by (rule binade_bounds(1)[OF assms(1)])
  also have "\<dots> \<le> q2" by (rule assms(2))
  also have "\<dots> < 2 powi (binade q2 + 1)" using assms by (intro binade_bounds(2)) simp
  finally show False by simp
qed

lemma fl_mono:
  assumes "0 \<le> q1" "q1 \<le> q2"
  shows "fl q1 \<le> fl q2"
proof (cases "q1 = 0")
  case True
  show ?thesis
  proof (cases "q2 = 0")
    case True
    with \<open>q1 = 0\<close> show ?thesis by simp
  next
    case False
    with assms True have p2: "0 < q2" by simp
    have "(0::rat) \<le> 2 powi (binade q2)" by simp
    also have "\<dots> \<le> fl q2" by (rule fl_bounds(1)[OF p2])
    finally show ?thesis using True by (simp add: fl_zero)
  qed
next
  case False
  with assms have p1: "0 < q1" and p2: "0 < q2" by simp_all
  have le: "binade q1 \<le> binade q2" by (rule binade_mono[OF p1 assms(2)])
  show ?thesis
  proof (cases "binade q1 = binade q2")
    case True
    let ?u = "(2::rat) powi (binade q2 - 52)"
    have "q1 / ?u \<le> q2 / ?u" using assms(2) by (simp add: divide_right_mono)
    then have "round_half_even (q1 / ?u) \<le> round_half_even (q2 / ?u)"
      by (rule round_half_even_mono)
    then have "(of_int (round_half_even (q1 / ?u)) :: rat) \<le> of_int (round_half_even (q2 / ?u))"
      by (simp only: of_int_le_iff)
    then have "of_int (round_half_even (q1 / ?u)) * ?u \<le> of_int (round_half_even (q2 / ?u)) * ?u"
      by (rule mult_right_mono) simp
    then show ?thesis by (simp only: fl_pos[OF p1] fl_pos[OF p2] True)
  next
    case False
    with le have "binade q1 + 1 \<le> binade q2" by simp
    then have "(2::rat) powi (binade q1 + 1) \<le> 2 powi (binade q2)"
      by (rule power_int_increasing) simp
    with fl_bounds(2)[OF p1] fl_bounds(1)[OF p2] show ?thesis by linarith
  qed
qed

lemma fl_error:
  assumes "0 < q"
  shows "\<bar>fl q - q\<bar> \<le> q / 2 ^ 53"
proof -
  let ?u = "(2::rat) powi (binade q - 52)"
  let ?m = "round_half_even (q / ?u)"
  have u: "0 < ?u" by simp
  have "fl q - q = (of_int ?m - q / ?u) * ?u"
    by (simp add: fl_pos[OF assms] algebra_simps)
  then have "\<bar>fl q - q\<bar> = \<bar>of_int ?m - q / ?u\<bar> * ?u"
    using u by (simp add: abs_mult)
  also have "\<dots> \<le> 1/2 * ?u"
    by (rule mult_right_mono[OF round_half_even_error]) simp
  also have "\<dots> = 2 powi (binade q) / 2 ^ 53"
    by (simp add: power_int_diff)
  also have "\<dots> \<le> q / 2 ^ 53"
    using binade_bounds(1)[OF assms] by (simp add: divide_right_mono)
  finally show ?thesis .
qed

lemma fl_one: "fl 1 = 1" by code_simp
lemma fl_hundred: "fl 100 = 100" by code_simp
lemma fl_edge: "fl (fl (198 / 199) * 100) < 199 / 2" by code_simp

section \<open>Progress percentage\<close>

lemma parse_options_id: "parse_options q = q"
  by (cases "options q") (simp_all add: parse_options_def)

lemma truthy_iff: "truthy v \<longleftrightarrow> v \<noteq> None \<and> v \<noteq> Some []"
  by (cases v) (simp_all add: truthy_def)

lemma GET_planning_state:
  assumes "GET_planning d taskId = Inr st"
  shows "select_task d taskId \<noteq> None"
    and "questions st = select_questions d taskId"
    and "spec st = select_spec d taskId"
    and "isLocked st = (select_spec d taskId \<noteq> None)"
    and "total_n (progress st) = length (questions st)"
    and "answered (progress st) = length (filter (\<lambda>q. truthy (answer q)) (questions st))"
    and "percentage (progress st)
           = percentage_of (total_n (progress st)) (answered (progress st))"
proof -
  from assms show t: "select_task d taskId \<noteq> None"
    by (auto simp: GET_planning_def split: option.splits)
  have pm: "map parse_options xs = xs" for xs
    by (induction xs) (simp_all add: parse_options_id)
  from assms t have st: "st = \<lparr>questions = select_questions d taskId,
      spec = select_spec d taskId,
      progress = \<lparr>total_n = length (select_questions d taskId),
        answered = length (filter (\<lambda>q. truthy (answer q)) (select_questions d taskId)),
        percentage = percentage_of (length (select_questions d taskId))
          (length (filter (\<lambda>q. truthy (answer q)) (select_questions d taskId)))\<rparr>,
      isLocked = (select_spec d taskId \<noteq> None)\<rparr>"
    by (auto simp: GET_planning_def Let_def pm)
  show "questions st = select_questions d taskId" by (simp add: st)
  show "spec st = select_spec d taskId" by (simp add: st)
  show "isLocked st = (select_spec d taskId \<noteq> None)" by (simp add: st)
  show "total_n (progress st) = length (questions st)" by (simp add: st)
  show "answered (progress st) = length (filter (\<lambda>q. truthy (answer q)) (questions st))"
    by (simp add: st)
  show "percentage (progress st)
           = percentage_of (total_n (progress st)) (answered (progress st))"
    by (simp add: st)
qed

lemma Math_round_of_int: "Math_round (of_int n) = n"
  unfolding Math_round_def by linarith

lemma percentage_all_answered:
  assumes "0 < tot"
  shows "percentage_of tot tot = 100"
proof -
  have "(of_nat tot :: rat) / of_nat tot = 1" using assms by simp
  then have "fl (fl (of_nat tot / of_nat tot) * 100) = of_int 100"
    by (simp add: fl_one fl_hundred)
  then have "Math_round (fl (fl (of_nat tot / of_nat tot) * 100)) = 100"
    by (simp only: Math_round_of_int)
  then show ?thesis using assms by (simp add: percentage_of_def)
qed

lemma percentage_some_unanswered:
  assumes "ans < tot" "tot < 200"
  shows "percentage_of tot ans < 100"
proof -
  from assms have t: "0 < tot" by simp
  have "199 * ans \<le> 198 * tot" using assms by linarith
  then have "(of_nat (199 * ans) :: rat) \<le> of_nat (198 * tot)" by (simp only: of_nat_le_iff)
  then have "(of_nat ans :: rat) * 199 \<le> 198 * of_nat tot" by (simp add: mult.commute)
  then have q: "(of_nat ans :: rat) / of_nat tot \<le> 198 / 199"
    using t by (simp add: divide_simps)
  have nn: "(0::rat) \<le> of_nat ans / of_nat tot" by simp
  have "fl (of_nat ans / of_nat tot) \<le> fl (198 / 199)" by (rule fl_mono[OF nn q])
  then have m: "fl (of_nat ans / of_nat tot) * 100 \<le> fl (198 / 199) * 100" by simp
  have "fl 0 \<le> fl (of_nat ans / of_nat tot)" by (rule fl_mono[OF _ nn]) simp
  then have nn2: "0 \<le> fl (of_nat ans / of_nat tot) * 100" by (simp add: fl_zero)
  have "fl (fl (of_nat ans / of_nat tot) * 100) \<le> fl (fl (198 / 199) * 100)"
    by (rule fl_mono[OF nn2 m])
  also have "\<dots> < 199 / 2" by (rule fl_edge)
  finally have "fl (fl (of_nat ans / of_nat tot) * 100) + 1 / 2 < of_int 100" by simp
  then have "Math_round (fl (fl (of_nat ans / of_nat tot) * 100)) < 100"
    unfolding Math_round_def by (simp only: floor_less_iff)
  then show ?thesis using t by (simp add: percentage_of_def)
qed

lemma percentage_100_iff:
  assumes "0 < tot" "tot < 200" "ans \<le> tot"
  shows "percentage_of tot ans = 100 \<longleftrightarrow> ans = tot"
proof
  assume p: "percentage_of tot ans = 100"
  show "ans = tot"
  proof (rule ccontr)
    assume "ans \<noteq> tot"
    with assms have "ans < tot" by simp
    from percentage_some_unanswered[OF this assms(2)] p show False by simp
  qed
next
  assume "ans = tot"
  with percentage_all_answered[OF assms(1)] show "percentage_of tot ans = 100" by simp
qed

text \<open>
  Claim C1, amended: for every question set with fewer than 200 questions, \<open>0 < total < 200\<close>
  and \<open>answered \<le> total\<close>, the computed percentage equals 100 if and only if
  \<open>answered = total\<close>; so the read model of such a set reports 100 exactly when it has a
  question and all are answered, and the planning tab then shows the lock button exactly for
  an unlocked task that has questions, all of them answered.
\<close>

theorem percentage_100_iff_all_answered:
  "(0 < tot \<and> tot < 200 \<and> ans \<le> tot \<longrightarrow> (percentage_of tot ans = 100 \<longleftrightarrow> ans = tot))
   \<and> (GET_planning d taskId = Inr st \<and> total_n (progress st) < 200 \<longrightarrow>
        (percentage (progress st) = 100 \<longleftrightarrow>
           0 < total_n (progress st) \<and> answered (progress st) = total_n (progress st))
        \<and> (lock_button_shown st \<longleftrightarrow>
             \<not> isLocked st \<and> questions st \<noteq> []
             \<and> answered (progress st) = total_n (progress st)))"
proof (intro conjI impI)
  assume "0 < tot \<and> tot < 200 \<and> ans \<le> tot"
  then show "percentage_of tot ans = 100 \<longleftrightarrow> ans = tot"
    using percentage_100_iff[of tot ans] by simp
next
  assume h: "GET_planning d taskId = Inr st \<and> total_n (progress st) < 200"
  note g = GET_planning_state[OF h[THEN conjunct1]]
  have le: "answered (progress st) \<le> total_n (progress st)"
    unfolding g(5,6) by (rule length_filter_le)
  show p: "percentage (progress st) = 100 \<longleftrightarrow>
           0 < total_n (progress st) \<and> answered (progress st) = total_n (progress st)"
  proof (cases "total_n (progress st) = 0")
    case True
    then show ?thesis by (simp add: g(7) percentage_of_def)
  next
    case False
    then have "0 < total_n (progress st)" by simp
    from percentage_100_iff[OF this h[THEN conjunct2] le] this show ?thesis
      by (simp add: g(7))
  qed
  have l: "isLocked st \<longleftrightarrow> spec st \<noteq> None" by (simp add: g(3,4))
  have n: "questions st \<noteq> [] \<longleftrightarrow> 0 < total_n (progress st)" by (simp add: g(5))
  show "lock_button_shown st \<longleftrightarrow>
             \<not> isLocked st \<and> questions st \<noteq> []
             \<and> answered (progress st) = total_n (progress st)"
    unfolding lock_button_shown_def p using l n by blast
qed

text \<open>
  A witness of C1 as amended: three questions with two or three of them answered, and the
  read models of the open tasks \<open>t1\<close> (one of three answered) and \<open>t3\<close> (all answered).
\<close>

theorem percentage_100_iff_all_answered_witness:
  "(0::nat) < 3 \<and> (3::nat) < 200 \<and> (2::nat) \<le> 3
   \<and> percentage_of 3 2 \<noteq> 100 \<and> percentage_of 3 3 = 100
   \<and> (\<exists>st. GET_planning example_db ''t1'' = Inr st \<and> total_n (progress st) = 3
         \<and> answered (progress st) = 1 \<and> \<not> lock_button_shown st)
   \<and> (\<exists>st. GET_planning example_db ''t3'' = Inr st \<and> total_n (progress st) = 1
         \<and> answered (progress st) = 1 \<and> lock_button_shown st)"
proof -
  have a: "percentage_of 3 2 \<noteq> 100" "percentage_of 3 3 = 100"
    using percentage_100_iff_all_answered[of 3 2] percentage_100_iff_all_answered[of 3 3]
    by simp_all
  have g1: "GET_planning example_db ''t1'' =
     Inr \<lparr>questions = [example_question ''q1'' ''t1'' 0 None (Some ''yes''),
         example_question ''q2'' ''t1'' 1 None None,
         example_question ''q3'' ''t1'' 2 (Some example_choices) None],
         spec = None,
         progress = \<lparr>total_n = 3, answered = 1, percentage = 33\<rparr>,
         isLocked = False\<rparr>"
    by code_simp
  have g3: "GET_planning example_db ''t3'' =
     Inr \<lparr>questions = [example_question ''q7'' ''t3'' 0 None (Some ''ok'')],
         spec = None,
         progress = \<lparr>total_n = 1, answered = 1, percentage = 100\<rparr>,
         isLocked = False\<rparr>"
    by code_simp
  from percentage_100_iff_all_answered[where d = example_db and taskId = "''t1''", THEN conjunct2, rule_format,
      OF conjI, OF g1]
  have b: "\<exists>st. GET_planning example_db ''t1'' = Inr st \<and> total_n (progress st) = 3
         \<and> answered (progress st) = 1 \<and> \<not> lock_button_shown st"
    using g1 by simp
  from percentage_100_iff_all_answered[where d = example_db and taskId = "''t3''", THEN conjunct2, rule_format,
      OF conjI, OF g3]
  have c: "\<exists>st. GET_planning example_db ''t3'' = Inr st \<and> total_n (progress st) = 1
         \<and> answered (progress st) = 1 \<and> lock_button_shown st"
    using g3 by simp
  from a b c show ?thesis by simp
qed

text \<open>
  C1 as stated, without the bound on the total, fails: with 199 of 200 questions answered
  the quotient is rounded to the double 99.5, which \<open>Math.round\<close> takes to 100.
\<close>

theorem percentage_100_with_unanswered_question:
  "(0::nat) < 200 \<and> (199::nat) \<le> 200 \<and> percentage_of 200 199 = 100 \<and> (199::nat) \<noteq> 200"
  by code_simp

text \<open>
  At an exact half the result follows the double arithmetic: 1 of 8 gives 12.5 and the
  percentage 13, while 23 of 40 gives the double just below 57.5 and the percentage 57.
\<close>

lemma percentage_ties: "percentage_of 8 1 = 13 \<and> percentage_of 40 23 = 57"
  by code_simp

lemma fl_pos_positive:
  assumes "0 < q" shows "0 < fl q"
proof -
  have "(0::rat) < 2 powi (binade q)" by simp
  also have "\<dots> \<le> fl q" by (rule fl_bounds(1)[OF assms])
  finally show ?thesis .
qed

lemma percentage_float_error:
  assumes "0 < ans" "ans \<le> tot"
  shows "\<bar>fl (fl (of_nat ans / of_nat tot) * 100) - 100 * of_nat ans / of_nat tot\<bar> \<le> 300 / 2 ^ 53"
proof -
  define x :: rat where "x = of_nat ans / of_nat tot"
  define y1 where "y1 = fl x"
  define y2 where "y2 = fl (y1 * 100)"
  define e :: rat where "e = 1 / 2 ^ 53"
  from assms have t: "0 < tot" by simp
  have x0: "0 < x" unfolding x_def using assms t by simp
  have "(of_nat ans :: rat) \<le> of_nat tot" using assms(2) by (simp only: of_nat_le_iff)
  then have x1: "x \<le> 1" unfolding x_def using t by (simp add: divide_le_eq)
  have e0: "0 < e" and e1: "e \<le> 1" unfolding e_def by simp_all
  have xe: "x / 2 ^ 53 = x * e" and ye: "y1 * 100 / 2 ^ 53 = 100 * (y1 * e)"
    unfolding e_def by simp_all
  have "\<bar>y1 - x\<bar> \<le> x / 2 ^ 53" unfolding y1_def by (rule fl_error[OF x0])
  then have d1: "\<bar>y1 - x\<bar> \<le> x * e" by (simp only: xe)
  have "x * e \<le> 1 * e" using x1 e0 by (intro mult_right_mono) simp_all
  with d1 have d1': "\<bar>y1 - x\<bar> \<le> e" by simp
  have y0: "0 < y1" unfolding y1_def by (rule fl_pos_positive[OF x0])
  then have y0': "0 < y1 * 100" by simp
  have y1le: "y1 \<le> 2" using d1' x1 e1 by linarith
  have "\<bar>y2 - y1 * 100\<bar> \<le> y1 * 100 / 2 ^ 53" unfolding y2_def by (rule fl_error[OF y0'])
  then have d2: "\<bar>y2 - y1 * 100\<bar> \<le> 100 * (y1 * e)" by (simp only: ye)
  have "y1 * e \<le> 2 * e" using y1le e0 by (intro mult_right_mono) simp_all
  with d2 have d2': "\<bar>y2 - y1 * 100\<bar> \<le> 200 * e" by linarith
  have "\<bar>y2 - 100 * x\<bar> \<le> 300 * e" using d1' d2' by linarith
  moreover have "100 * x = 100 * of_nat ans / of_nat tot" unfolding x_def by simp
  moreover have "300 * e = 300 / 2 ^ 53" unfolding e_def by simp
  ultimately show ?thesis unfolding y2_def y1_def x_def by (simp only:)
qed

lemma percentage_nearest:
  assumes "0 < tot" "ans \<le> tot" "tot < 2 ^ 32"
  shows "\<bar>of_int (percentage_of tot ans) - 100 * of_nat ans / (of_nat tot :: rat)\<bar> \<le> 1 / 2"
proof (cases "ans = 0")
  case True
  have "\<lfloor>(1::rat) / 2\<rfloor> = 0" by linarith
  then have "Math_round 0 = 0" unfolding Math_round_def by simp
  then show ?thesis using assms True by (simp add: percentage_of_def fl_zero)
next
  case False
  then have a: "0 < ans" by simp
  define y where "y = fl (fl (of_nat ans / of_nat tot) * 100)"
  define p where "p = Math_round y"
  define A :: rat where "A = of_nat ans"
  define T :: rat where "T = of_nat tot"
  define X where "X = 100 * A / T"
  define e :: rat where "e = 300 / 2 ^ 53"
  have T0: "0 < T" unfolding T_def using assms(1) by simp
  have "(of_nat tot :: rat) < of_nat (2 ^ 32)" using assms(3) by (simp only: of_nat_less_iff)
  then have T32: "T < 2 ^ 32" unfolding T_def by simp
  have pe: "percentage_of tot ans = p" using assms(1) by (simp add: percentage_of_def p_def y_def)
  have err: "\<bar>y - X\<bar> \<le> e"
    unfolding y_def X_def A_def T_def e_def by (rule percentage_float_error[OF a assms(2)])
  have p1: "of_int p \<le> y + 1 / 2" and p2: "y + 1 / 2 < of_int p + 1"
    unfolding p_def Math_round_def by linarith+
  have "T * e < 2 ^ 32 * e" using T32 by (intro mult_strict_right_mono) (simp_all add: e_def)
  also have "\<dots> \<le> 1 / 2" unfolding e_def by simp
  finally have small: "2 * (T * e) < 1" by simp
  have TX: "T * X = 100 * A" unfolding X_def using T0 by simp
  have q1: "2 * (T * of_int p) = of_int (2 * (int tot * p))"
    and q2: "200 * A + T + 1 = of_int (200 * int ans + int tot + 1)"
    and q3: "200 * A + T = of_int (200 * int ans + int tot)"
    and q4: "200 * A - T - 1 = of_int (200 * int ans - int tot - 1)"
    and q5: "200 * A - T = of_int (200 * int ans - int tot)"
    unfolding T_def A_def by simp_all
  have up: "of_int p \<le> X + 1 / 2"
  proof -
    from p1 err have "of_int p \<le> X + 1 / 2 + e" by linarith
    then have "T * of_int p \<le> T * (X + 1 / 2 + e)" using T0 by (intro mult_left_mono) simp_all
    also have "\<dots> = T * X + T / 2 + T * e" by (simp add: algebra_simps)
    finally have "2 * (T * of_int p) < 200 * A + T + 1" using small TX by linarith
    then have "(of_int (2 * (int tot * p)) :: rat) < of_int (200 * int ans + int tot + 1)"
      by (simp only: q1 q2)
    then have "2 * (int tot * p) < 200 * int ans + int tot + 1" by (simp only: of_int_less_iff)
    then have "2 * (int tot * p) \<le> 200 * int ans + int tot" by simp
    then have "(of_int (2 * (int tot * p)) :: rat) \<le> of_int (200 * int ans + int tot)"
      by (simp only: of_int_le_iff)
    then have "2 * (T * of_int p) \<le> 200 * A + T" by (simp only: q1 q3)
    then have "T * of_int p \<le> T * X + T / 2" using TX by linarith
    then have "T * of_int p \<le> T * (X + 1 / 2)" by (simp add: algebra_simps)
    then show ?thesis using T0 by (simp only: mult_le_cancel_left_pos)
  qed
  have down: "X - 1 / 2 \<le> of_int p"
  proof -
    from p2 err have "X - 1 / 2 - e < of_int p" by linarith
    then have "T * (X - 1 / 2 - e) < T * of_int p" using T0 by (intro mult_strict_left_mono) simp_all
    moreover have "T * (X - 1 / 2 - e) = T * X - T / 2 - T * e" by (simp add: algebra_simps)
    ultimately have "200 * A - T - 1 < 2 * (T * of_int p)" using small TX by linarith
    then have "(of_int (200 * int ans - int tot - 1) :: rat) < of_int (2 * (int tot * p))"
      by (simp only: q1 q4)
    then have "200 * int ans - int tot - 1 < 2 * (int tot * p)" by (simp only: of_int_less_iff)
    then have "200 * int ans - int tot \<le> 2 * (int tot * p)" by simp
    then have "(of_int (200 * int ans - int tot) :: rat) \<le> of_int (2 * (int tot * p))"
      by (simp only: of_int_le_iff)
    then have "200 * A - T \<le> 2 * (T * of_int p)" by (simp only: q1 q5)
    then have "T * X - T / 2 \<le> T * of_int p" using TX by linarith
    then have "T * (X - 1 / 2) \<le> T * of_int p" by (simp add: algebra_simps)
    then show ?thesis using T0 by (simp only: mult_le_cancel_left_pos)
  qed
  from up down have "\<bar>of_int p - X\<bar> \<le> 1 / 2" by linarith
  then show ?thesis unfolding pe X_def A_def T_def .
qed

text \<open>
  Claim C4: the progress of the read model has \<open>total\<close> the number of questions of the task,
  \<open>answered\<close> the number of those whose answer is neither missing nor empty, percentage 0
  when there is no question, and otherwise the value of \<open>Math.round((answered / total) * 100)\<close>,
  a function of the two counts which lies within one half of \<open>100 * answered / total\<close>
  (for any total an array length can take); total 0 gives 0, 1 of 3 gives 33, 2 of 3 gives
  67 and 1 of 4 gives 25.
\<close>

theorem progress_computation:
  assumes "GET_planning d taskId = Inr st"
  shows "total_n (progress st) = length (questions st)
     \<and> answered (progress st)
         = length (filter (\<lambda>q. answer q \<noteq> None \<and> answer q \<noteq> Some []) (questions st))
     \<and> (total_n (progress st) = 0 \<longrightarrow> percentage (progress st) = 0)
     \<and> percentage (progress st) = percentage_of (total_n (progress st)) (answered (progress st))
     \<and> (0 < total_n (progress st) \<and> total_n (progress st) < 2 ^ 32 \<longrightarrow>
          \<bar>of_int (percentage (progress st))
            - 100 * of_nat (answered (progress st)) / (of_nat (total_n (progress st)) :: rat)\<bar> \<le> 1 / 2)
     \<and> percentage_of 0 0 = 0 \<and> percentage_of 3 1 = 33 \<and> percentage_of 3 2 = 67
     \<and> percentage_of 4 1 = 25"
proof -
  from assms obtain task where "select_task d taskId = Some task"
    by (auto simp: GET_planning_def split: option.splits)
  with assms have st: "st = \<lparr>questions = map parse_options (select_questions d taskId),
      spec = select_spec d taskId,
      progress = \<lparr>total_n = length (select_questions d taskId),
        answered = length (filter (\<lambda>q. truthy (answer q)) (map parse_options (select_questions d taskId))),
        percentage = percentage_of (length (select_questions d taskId))
          (length (filter (\<lambda>q. truthy (answer q)) (map parse_options (select_questions d taskId))))\<rparr>,
      isLocked = (select_spec d taskId \<noteq> None)\<rparr>"
    by (simp add: GET_planning_def Let_def)
  have tr: "truthy v \<longleftrightarrow> v \<noteq> None \<and> v \<noteq> Some []" for v
    by (cases v) (simp_all add: truthy_def)
  have t: "total_n (progress st) = length (questions st)" by (simp add: st)
  have a: "answered (progress st)
         = length (filter (\<lambda>q. answer q \<noteq> None \<and> answer q \<noteq> Some []) (questions st))"
    by (simp add: st tr)
  have p: "percentage (progress st) = percentage_of (total_n (progress st)) (answered (progress st))"
    by (simp add: st)
  have z: "total_n (progress st) = 0 \<longrightarrow> percentage (progress st) = 0"
    by (simp add: p percentage_of_def)
  have le: "answered (progress st) \<le> total_n (progress st)"
    unfolding a t by (rule length_filter_le)
  have n: "0 < total_n (progress st) \<and> total_n (progress st) < 2 ^ 32 \<longrightarrow>
          \<bar>of_int (percentage (progress st))
            - 100 * of_nat (answered (progress st)) / (of_nat (total_n (progress st)) :: rat)\<bar> \<le> 1 / 2"
    unfolding p using percentage_nearest[OF _ le] by blast
  have v0: "percentage_of 0 0 = 0" by (simp add: percentage_of_def)
  have v1: "percentage_of 3 1 = 33" by code_simp
  have v2: "percentage_of 3 2 = 67" by code_simp
  have v3: "percentage_of 4 1 = 25" by code_simp
  from t a z p n v0 v1 v2 v3 show ?thesis by blast
qed

text \<open>A witness of C4: task \<open>t1\<close> of the example store, one of three questions answered.\<close>

theorem progress_computation_witness:
  "GET_planning example_db ''t1'' =
     Inr \<lparr>questions = [example_question ''q1'' ''t1'' 0 None (Some ''yes''),
         example_question ''q2'' ''t1'' 1 None None,
         example_question ''q3'' ''t1'' 2 (Some example_choices) None],
         spec = None,
         progress = \<lparr>total_n = 3, answered = 1, percentage = 33\<rparr>,
         isLocked = False\<rparr>
   \<and> (0::nat) < 3 \<and> (3::nat) < 2 ^ 32
   \<and> \<bar>of_int 33 - 100 * of_nat 1 / (of_nat 3 :: rat)\<bar> \<le> 1 / 2"
proof -
  have h: "GET_planning example_db ''t1'' =
     Inr \<lparr>questions = [example_question ''q1'' ''t1'' 0 None (Some ''yes''),
         example_question ''q2'' ''t1'' 1 None None,
         example_question ''q3'' ''t1'' 2 (Some example_choices) None],
         spec = None,
         progress = \<lparr>total_n = 3, answered = 1, percentage = 33\<rparr>,
         isLocked = False\<rparr>"
    by code_simp
  from progress_computation[OF h] h show ?thesis by simp
qed

section \<open>Answering a question\<close>

lemma POST_answer_valid:
  assumes "qid \<noteq> []" "a \<noteq> []"
  shows "POST_answer d now taskId (Some qid) (Some a) =
     (case find (\<lambda>q. q_id q = qid \<and> task_id q = taskId) (planning_questions d) of
        None \<Rightarrow> (d, Inl NotFound)
      | Some q0 \<Rightarrow>
          (case select_spec d taskId of
             Some sp \<Rightarrow> (d, Inl Locked)
           | None \<Rightarrow>
               (case find (\<lambda>q. q_id q = qid) (update_answer a now qid (planning_questions d)) of
                  None \<Rightarrow> (d\<lparr>planning_questions := update_answer a now qid (planning_questions d)\<rparr>,
                           Inl InternalFailure)
                | Some u \<Rightarrow> (d\<lparr>planning_questions := update_answer a now qid (planning_questions d)\<rparr>,
                             Inr u))))"
  using assms by (simp add: POST_answer_def truthy_def Let_def parse_options_id split: option.splits)

lemma POST_answer_success_iff:
  assumes "POST_answer d now taskId questionId ans = (d', Inr u)"
  obtains qid a where "questionId = Some qid" "ans = Some a" "qid \<noteq> []" "a \<noteq> []"
    "find (\<lambda>q. q_id q = qid \<and> task_id q = taskId) (planning_questions d) \<noteq> None"
    "select_spec d taskId = None"
    "d' = d\<lparr>planning_questions := update_answer a now qid (planning_questions d)\<rparr>"
    "find (\<lambda>q. q_id q = qid) (update_answer a now qid (planning_questions d)) = Some u"
proof -
  from assms have t: "truthy questionId" "truthy ans"
    by (auto simp: POST_answer_def split: if_splits)
  then obtain qid a where qa: "questionId = Some qid" "ans = Some a" "qid \<noteq> []" "a \<noteq> []"
    by (auto simp: truthy_def split: option.splits)
  from assms show ?thesis
    unfolding qa POST_answer_valid[OF qa(3,4)]
    by (auto split: option.splits intro: that[OF qa])
qed












lemma update_answer_nth:
  "i < length rows \<Longrightarrow> update_answer a now qid rows ! i =
     (if q_id (rows ! i) = qid then (rows ! i)\<lparr>answer := Some a, answered_at := Some now\<rparr>
      else rows ! i)"
  by (simp add: update_answer_def)




text \<open>
  Claim C10: after a successful answer call the task rows and the spec rows are the same, the
  question table has the same length, every row keeps its identifier, task, category,
  prompt, type, options and sort position, and every row whose identifier is not the
  question identifier of the call is the same row as before.
\<close>

theorem answer_frame:
  assumes "POST_answer d now taskId questionId ans = (d', Inr u)"
  shows "tasks d' = tasks d \<and> planning_specs d' = planning_specs d
     \<and> length (planning_questions d') = length (planning_questions d)
     \<and> (\<forall>i < length (planning_questions d).
          q_id (planning_questions d' ! i) = q_id (planning_questions d ! i)
        \<and> task_id (planning_questions d' ! i) = task_id (planning_questions d ! i)
        \<and> category (planning_questions d' ! i) = category (planning_questions d ! i)
        \<and> question (planning_questions d' ! i) = question (planning_questions d ! i)
        \<and> question_type (planning_questions d' ! i) = question_type (planning_questions d ! i)
        \<and> options (planning_questions d' ! i) = options (planning_questions d ! i)
        \<and> sort_order (planning_questions d' ! i) = sort_order (planning_questions d ! i)
        \<and> (Some (q_id (planning_questions d ! i)) \<noteq> questionId \<longrightarrow>
              planning_questions d' ! i = planning_questions d ! i))"
proof -
  from assms obtain qid a where
    q: "questionId = Some qid"
    and d': "d' = d\<lparr>planning_questions := update_answer a now qid (planning_questions d)\<rparr>"
    by (rule POST_answer_success_iff)
  have pq: "planning_questions d' = update_answer a now qid (planning_questions d)"
    and ts: "tasks d' = tasks d" and ss: "planning_specs d' = planning_specs d"
    by (simp_all add: d')
  have len: "length (planning_questions d') = length (planning_questions d)"
    by (simp add: pq update_answer_def)
  have row: "q_id (planning_questions d' ! i) = q_id (planning_questions d ! i)
        \<and> task_id (planning_questions d' ! i) = task_id (planning_questions d ! i)
        \<and> category (planning_questions d' ! i) = category (planning_questions d ! i)
        \<and> question (planning_questions d' ! i) = question (planning_questions d ! i)
        \<and> question_type (planning_questions d' ! i) = question_type (planning_questions d ! i)
        \<and> options (planning_questions d' ! i) = options (planning_questions d ! i)
        \<and> sort_order (planning_questions d' ! i) = sort_order (planning_questions d ! i)
        \<and> (Some (q_id (planning_questions d ! i)) \<noteq> questionId \<longrightarrow>
              planning_questions d' ! i = planning_questions d ! i)"
    if "i < length (planning_questions d)" for i
    unfolding pq update_answer_nth[OF that] q by simp
  from ts ss len row show ?thesis by blast
qed

text \<open>A witness of C10: question \<open>q2\<close> of the open task is answered.\<close>

theorem answer_frame_witness:
  "POST_answer example_db ''2024-02-01 10:00:00'' ''t1'' (Some ''q2'') (Some ''x'')
     = (example_db\<lparr>planning_questions :=
          update_answer ''x'' ''2024-02-01 10:00:00'' ''q2'' (planning_questions example_db)\<rparr>,
        Inr ((example_question ''q2'' ''t1'' 1 None None)
               \<lparr>answer := Some ''x'', answered_at := Some ''2024-02-01 10:00:00''\<rparr>))
   \<and> tasks (example_db\<lparr>planning_questions :=
          update_answer ''x'' ''2024-02-01 10:00:00'' ''q2'' (planning_questions example_db)\<rparr>)
       = tasks example_db
   \<and> planning_specs (example_db\<lparr>planning_questions :=
          update_answer ''x'' ''2024-02-01 10:00:00'' ''q2'' (planning_questions example_db)\<rparr>)
       = planning_specs example_db"
proof -
  have h: "POST_answer example_db ''2024-02-01 10:00:00'' ''t1'' (Some ''q2'') (Some ''x'')
     = (example_db\<lparr>planning_questions :=
          update_answer ''x'' ''2024-02-01 10:00:00'' ''q2'' (planning_questions example_db)\<rparr>,
        Inr ((example_question ''q2'' ''t1'' 1 None None)
               \<lparr>answer := Some ''x'', answered_at := Some ''2024-02-01 10:00:00''\<rparr>))"
    by code_simp
  from answer_frame[OF h] h show ?thesis by simp
qed

section \<open>Generating the questions\<close>

lemma templates_loop_rows:
  "templates_loop uuid taskId cat ts (rows, n) =
     (rows @ map (\<lambda>(i, t). new_question uuid taskId cat t i) (enumerate n ts), n + length ts)"
  by (induction ts arbitrary: rows n) simp_all

lemma enumerate_map_Pair:
  "map (\<lambda>(i, t). f c t i) (enumerate n ts) = map (\<lambda>(i, (c, t)). f c t i) (enumerate n (map (Pair c) ts))"
  by (induction ts arbitrary: n) simp_all

lemma categories_loop_rows:
  "categories_loop uuid taskId cs (rows, n) =
     (rows @ map (\<lambda>(i, (c, t)). new_question uuid taskId c t i)
               (enumerate n (concat (map (\<lambda>c. map (Pair c) (QUESTION_TEMPLATES c)) cs))),
      n + length (concat (map (\<lambda>c. map (Pair c) (QUESTION_TEMPLATES c)) cs)))"
proof (induction cs arbitrary: rows n)
  case Nil
  show ?case by simp
next
  case (Cons c cs)
  show ?case
    by (simp add: templates_loop_rows Cons.IH enumerate_append_eq
        enumerate_map_Pair[of "new_question uuid taskId" c n "QUESTION_TEMPLATES c"] add.assoc)
qed

lemma length_template_sequence: "length template_sequence = 16"
  by (simp add: template_sequence_def categories_def)

lemma generated_nth:
  assumes "i < length template_sequence"
  shows "generated uuid taskId ! i
     = new_question uuid taskId (fst (template_sequence ! i)) (snd (template_sequence ! i)) i"
  using assms by (simp add: generated_def nth_enumerate_eq case_prod_beta)

lemma generated_props:
  "length (generated uuid taskId) = length template_sequence"
  "map sort_order (generated uuid taskId) = [0..<length template_sequence]"
  "map task_id (generated uuid taskId) = replicate (length template_sequence) taskId"
  "map (\<lambda>q. (category q, question q)) (generated uuid taskId)
     = map (\<lambda>(c, t). (c, tpl_question t)) template_sequence"
proof -
  show len: "length (generated uuid taskId) = length template_sequence"
    by (simp add: generated_def)
  show "map sort_order (generated uuid taskId) = [0..<length template_sequence]"
    by (rule nth_equalityI) (simp_all add: len generated_nth new_question_def)
  show "map task_id (generated uuid taskId) = replicate (length template_sequence) taskId"
    by (rule nth_equalityI) (simp_all add: len generated_nth new_question_def)
  show "map (\<lambda>q. (category q, question q)) (generated uuid taskId)
     = map (\<lambda>(c, t). (c, tpl_question t)) template_sequence"
    by (rule nth_equalityI) (simp_all add: len generated_nth new_question_def case_prod_beta)
qed

lemma POST_planning_success:
  assumes "POST_planning d uuid taskId = (d', Inr st)"
  shows "select_task d taskId \<noteq> None" "count_questions d taskId = 0"
    "d' = d\<lparr>tasks := map (\<lambda>t. if t_id t = taskId then t\<lparr>status := ''planning''\<rparr> else t) (tasks d),
           planning_questions := planning_questions d @ generated uuid taskId\<rparr>"
    "st = \<lparr>questions = generated uuid taskId, spec = None,
           progress = \<lparr>total_n = length template_sequence, answered = 0, percentage = 0\<rparr>,
           isLocked = False\<rparr>"
    "select_questions d' taskId = generated uuid taskId"
    "filter (\<lambda>q. task_id q = taskId) (planning_questions d') = generated uuid taskId"
proof -
  from assms show t: "select_task d taskId \<noteq> None"
    by (auto simp: POST_planning_def split: option.splits)
  from assms show c: "count_questions d taskId = 0"
    by (auto simp: POST_planning_def split: option.splits if_splits)
  have loop: "categories_loop uuid taskId categories (planning_questions d, 0)
     = (planning_questions d @ generated uuid taskId, length template_sequence)"
    by (simp add: categories_loop_rows generated_def template_sequence_def)
  from c have old: "filter (\<lambda>q. task_id q = taskId) (planning_questions d) = []"
    by (simp add: count_questions_def)
  have "task_id q = taskId" if "q \<in> set (generated uuid taskId)" for q
  proof -
    from that obtain i where i: "i < length (generated uuid taskId)" "generated uuid taskId ! i = q"
      by (auto simp: in_set_conv_nth)
    then have "task_id q = map task_id (generated uuid taskId) ! i" by simp
    also have "\<dots> = taskId" using i(1) by (simp add: generated_props(3) generated_props(1))
    finally show ?thesis .
  qed
  then have new: "filter (\<lambda>q. task_id q = taskId) (generated uuid taskId) = generated uuid taskId"
    by (simp add: filter_id_conv)
  have "sorted (map sort_order (generated uuid taskId))"
    by (simp add: generated_props(2))
  then have srt: "sort_key sort_order (generated uuid taskId) = generated uuid taskId"
    by (rule sort_key_id_if_sorted)
  have sel: "select_questions
      (d\<lparr>tasks := map (\<lambda>t. if t_id t = taskId then t\<lparr>status := ''planning''\<rparr> else t) (tasks d),
         planning_questions := planning_questions d @ generated uuid taskId\<rparr>) taskId
      = generated uuid taskId"
    by (simp add: select_questions_def old new srt)
  have pm: "map parse_options xs = xs" for xs
    by (induction xs) (simp_all add: parse_options_id)
  from assms t c show d': "d' = d\<lparr>tasks := map (\<lambda>t. if t_id t = taskId then t\<lparr>status := ''planning''\<rparr> else t) (tasks d),
           planning_questions := planning_questions d @ generated uuid taskId\<rparr>"
    by (auto simp: POST_planning_def Let_def loop split: option.splits)
  from assms t c show "st = \<lparr>questions = generated uuid taskId, spec = None,
           progress = \<lparr>total_n = length template_sequence, answered = 0, percentage = 0\<rparr>,
           isLocked = False\<rparr>"
    using sel by (auto simp: POST_planning_def Let_def loop pm generated_props(1) split: option.splits)
  show "select_questions d' taskId = generated uuid taskId"
    unfolding d' by (rule sel)
  show "filter (\<lambda>q. task_id q = taskId) (planning_questions d') = generated uuid taskId"
    unfolding d' by (simp add: old new)
qed

lemma letters: "map (\<lambda>i. char_of (65 + i)) [0..<26] = alphabet"
  by code_simp

lemma letter_nth:
  assumes "i < 26"
  shows "char_of (65 + i) = alphabet ! i"
proof -
  have "map (\<lambda>i. char_of (65 + i)) [0..<26] ! i = char_of (65 + i)"
    using assms by (simp only: nth_map_upt minus_nat.diff_0 add_0)
  then show ?thesis by (simp only: letters)
qed

lemma length_alphabet: "length alphabet = 26"
  by (simp add: alphabet_def)

lemma stringify_options_props:
  "length (stringify_options ls) = length ls"
  "map label (stringify_options ls) = ls"
  "length ls \<le> 26 \<Longrightarrow>
     map opt_id (stringify_options ls) = map (\<lambda>c. [c]) (take (length ls) alphabet)"
proof -
  show len: "length (stringify_options ls) = length ls"
    by (simp add: stringify_options_def)
  show "map label (stringify_options ls) = ls"
    by (rule nth_equalityI) (simp_all add: stringify_options_def nth_enumerate_eq)
  assume k: "length ls \<le> 26"
  show "map opt_id (stringify_options ls) = map (\<lambda>c. [c]) (take (length ls) alphabet)"
  proof (rule nth_equalityI)
    show "length (map opt_id (stringify_options ls)) = length (map (\<lambda>c. [c]) (take (length ls) alphabet))"
      using k by (simp add: len length_alphabet)
  next
    fix i assume "i < length (map opt_id (stringify_options ls))"
    then have i: "i < length ls" by (simp add: len)
    with k have "i < 26" by simp
    from letter_nth[OF this] i k
    show "map opt_id (stringify_options ls) ! i = map (\<lambda>c. [c]) (take (length ls) alphabet) ! i"
      by (simp add: stringify_options_def nth_enumerate_eq fromCharCode_def length_alphabet)
  qed
qed

lemma template_options_short:
  assumes "i < length template_sequence" "tpl_options (snd (template_sequence ! i)) = Some ls"
  shows "length ls \<le> 26"
proof -
  have "\<forall>e \<in> set template_sequence. \<forall>ls. tpl_options (snd e) = Some ls \<longrightarrow> length ls \<le> 26"
    by (simp add: template_sequence_def categories_def)
  with assms show ?thesis using nth_mem by blast
qed

text \<open>
  Claim C3: after every successful generate call the returned questions, which are also the
  questions stored for the task, carry the sort positions \<open>0, 1, \<dots>, n - 1\<close> in this order,
  and their categories and prompts are those of the templates taken category by category in
  the order goal, audience, scope, design, content, technical, timeline, constraints and in
  template order within a category; the counter runs on across the categories.
\<close>

theorem generated_sort_positions:
  assumes "POST_planning d uuid taskId = (d', Inr st)"
  shows "map sort_order (questions st) = [0..<length (questions st)]
     \<and> distinct (map sort_order (questions st))
     \<and> filter (\<lambda>q. task_id q = taskId) (planning_questions d') = questions st
     \<and> select_questions d' taskId = questions st
     \<and> count_questions d' taskId = length (questions st)
     \<and> map (\<lambda>q. (category q, question q)) (questions st)
         = concat (map (\<lambda>c. map (\<lambda>t. (c, tpl_question t)) (QUESTION_TEMPLATES c))
             [goal, audience, scope, design, content, technical, timeline, constraints])
     \<and> map category (questions st)
         = [goal, goal, audience, audience, scope, scope, design, design, design,
            content, content, technical, technical, timeline, constraints, constraints]"
proof -
  note s = POST_planning_success[OF assms]
  have q: "questions st = generated uuid taskId" by (simp add: s(4))
  have a: "map sort_order (questions st) = [0..<length (questions st)]"
    by (simp add: q generated_props)
  have a': "distinct (map sort_order (questions st))" unfolding a by simp
  have b': "filter (\<lambda>q. task_id q = taskId) (planning_questions d') = questions st"
    by (simp add: q s(6))
  have b: "select_questions d' taskId = questions st" by (simp add: q s(5))
  have "length (select_questions d' taskId) = count_questions d' taskId"
    by (simp add: select_questions_def count_questions_def)
  with b have c: "count_questions d' taskId = length (questions st)" by simp
  have e: "map (\<lambda>q. (category q, question q)) (questions st)
         = concat (map (\<lambda>c. map (\<lambda>t. (c, tpl_question t)) (QUESTION_TEMPLATES c))
             [goal, audience, scope, design, content, technical, timeline, constraints])"
    unfolding q generated_props(4) by (simp add: template_sequence_def categories_def)
  have "map category (questions st) = map fst (map (\<lambda>q. (category q, question q)) (questions st))"
    by simp
  also have "\<dots> = [goal, goal, audience, audience, scope, scope, design, design, design,
            content, content, technical, technical, timeline, constraints, constraints]"
    unfolding e by simp
  finally have f: "map category (questions st)
         = [goal, goal, audience, audience, scope, scope, design, design, design,
            content, content, technical, technical, timeline, constraints, constraints]" .
  from a a' b' b c e f show ?thesis by (intro conjI)
qed

text \<open>A witness of C3: questions are generated for the task of the fresh store.\<close>

theorem generated_sort_positions_witness:
  "\<exists>d' st. POST_planning fresh_db example_uuid ''t1'' = (d', Inr st)
      \<and> map sort_order (questions st) = [0..<length (questions st)]
      \<and> length (questions st) = 16
      \<and> select_questions d' ''t1'' = questions st"
proof -
  have "\<exists>d' st. POST_planning fresh_db example_uuid ''t1'' = (d', Inr st)"
    by (simp add: POST_planning_def select_task_def count_questions_def fresh_db_def Let_def
        split: prod.splits)
  then obtain d' st where h: "POST_planning fresh_db example_uuid ''t1'' = (d', Inr st)"
    by blast
  from generated_sort_positions[OF h]
  have a: "map sort_order (questions st) = [0..<length (questions st)]"
    and b: "select_questions d' ''t1'' = questions st"
    and c: "map category (questions st)
         = [goal, goal, audience, audience, scope, scope, design, design, design,
            content, content, technical, technical, timeline, constraints, constraints]"
    by simp_all
  have "length (map category (questions st)) = 16" unfolding c by simp
  then have "length (questions st) = 16" by simp
  with h a b show ?thesis by blast
qed

text \<open>
  Claim C8: after every successful generate call the \<open>i\<close>-th question comes from the \<open>i\<close>-th
  template; a template without options gives a text question without choices, and a template
  with \<open>k\<close> options gives a multiple-choice question whose stored choice list has \<open>k\<close>
  entries, the identifiers being the first \<open>k\<close> letters \<open>A, B, C, \<dots>\<close> in order and the labels
  the template's options in order.
\<close>

theorem generated_choice_identifiers:
  assumes "POST_planning d uuid taskId = (d', Inr st)"
  shows "length (questions st) = length template_sequence
     \<and> select_questions d' taskId = questions st
     \<and> (\<forall>i < length template_sequence.
          case tpl_options (snd (template_sequence ! i)) of
            None \<Rightarrow> question_type (questions st ! i) = ''text'' \<and> options (questions st ! i) = None
          | Some ls \<Rightarrow>
              question_type (questions st ! i) = ''multiple_choice''
              \<and> (\<exists>os. options (questions st ! i) = Some os
                    \<and> length os = length ls
                    \<and> map opt_id os = map (\<lambda>c. [c]) (take (length ls) alphabet)
                    \<and> map label os = ls))"
proof -
  note s = POST_planning_success[OF assms]
  have q: "questions st = generated uuid taskId" by (simp add: s(4))
  have a: "length (questions st) = length template_sequence"
    by (simp add: q generated_props(1))
  have b: "select_questions d' taskId = questions st" by (simp add: q s(5))
  have c: "case tpl_options (snd (template_sequence ! i)) of
            None \<Rightarrow> question_type (questions st ! i) = ''text'' \<and> options (questions st ! i) = None
          | Some ls \<Rightarrow>
              question_type (questions st ! i) = ''multiple_choice''
              \<and> (\<exists>os. options (questions st ! i) = Some os
                    \<and> length os = length ls
                    \<and> map opt_id os = map (\<lambda>c. [c]) (take (length ls) alphabet)
                    \<and> map label os = ls)"
    if i: "i < length template_sequence" for i
  proof (cases "tpl_options (snd (template_sequence ! i))")
    case None
    then show ?thesis by (simp add: q generated_nth[OF i] new_question_def)
  next
    case (Some ls)
    from template_options_short[OF i Some] have k: "length ls \<le> 26" .
    show ?thesis
      by (simp add: Some q generated_nth[OF i] new_question_def stringify_options_props(1,2)
          stringify_options_props(3)[OF k])
  qed
  from a b c show ?thesis by blast
qed

text \<open>A witness of C8: the first generated question has five choices, \<open>A\<close> to \<open>E\<close>.\<close>

theorem generated_choice_identifiers_witness:
  "\<exists>d' st. POST_planning fresh_db example_uuid ''t1'' = (d', Inr st)
      \<and> (\<exists>os. options (questions st ! 0) = Some os
            \<and> map opt_id os = [''A'', ''B'', ''C'', ''D'', ''E'']
            \<and> map label os = [''Generate leads/sales'', ''Provide information'',
                 ''Collect user data'', ''Build brand awareness'', ''Other''])"
proof -
  have "\<exists>d' st. POST_planning fresh_db example_uuid ''t1'' = (d', Inr st)"
    by (simp add: POST_planning_def select_task_def count_questions_def fresh_db_def Let_def
        split: prod.splits)
  then obtain d' st where h: "POST_planning fresh_db example_uuid ''t1'' = (d', Inr st)"
    by (elim exE)
  have t0: "tpl_options (snd (template_sequence ! 0)) = Some [''Generate leads/sales'',
      ''Provide information'', ''Collect user data'', ''Build brand awareness'', ''Other'']"
    by (simp add: template_sequence_def categories_def)
  have l: "(0::nat) < length template_sequence" by (simp add: length_template_sequence)
  have al: "map (\<lambda>c. [c]) (take (length [''Generate leads/sales'',
      ''Provide information'', ''Collect user data'', ''Build brand awareness'', ''Other''])
      alphabet) = [''A'', ''B'', ''C'', ''D'', ''E'']"
    by (simp add: alphabet_def)
  note c0 = generated_choice_identifiers[OF h, THEN conjunct2, THEN conjunct2, rule_format, OF l,
      unfolded t0 option.case, THEN conjunct2]
  from c0 obtain os where
    o: "options (questions st ! 0) = Some os
        \<and> length os = length [''Generate leads/sales'', ''Provide information'',
             ''Collect user data'', ''Build brand awareness'', ''Other'']
        \<and> map opt_id os = map (\<lambda>c. [c]) (take (length [''Generate leads/sales'',
             ''Provide information'', ''Collect user data'', ''Build brand awareness'',
             ''Other'']) alphabet)
        \<and> map label os = [''Generate leads/sales'', ''Provide information'',
             ''Collect user data'', ''Build brand awareness'', ''Other'']" ..
  note o1 = o[THEN conjunct1]
  note o3 = o[THEN conjunct2, THEN conjunct2, THEN conjunct1, unfolded al]
  note o4 = o[THEN conjunct2, THEN conjunct2, THEN conjunct2]
  show ?thesis
  proof (intro exI conjI)
    show "POST_planning fresh_db example_uuid ''t1'' = (d', Inr st)" by (rule h)
    show "options (questions st ! 0) = Some os" by (rule o1)
    show "map opt_id os = [''A'', ''B'', ''C'', ''D'', ''E'']" by (rule o3)
    show "map label os = [''Generate leads/sales'', ''Provide information'',
                 ''Collect user data'', ''Build brand awareness'', ''Other'']" by (rule o4)
  qed
qed

text \<open>
  Claim C5: for every task that exists and already has one or more question records, a
  generate call signals \<open>AlreadyGenerated\<close> and returns the store as it was; in particular a
  second generate call after a successful one signals \<open>AlreadyGenerated\<close> and changes nothing.
\<close>

theorem generate_twice:
  "(select_task d taskId \<noteq> None \<and> 0 < count_questions d taskId \<longrightarrow>
      POST_planning d uuid taskId = (d, Inl AlreadyGenerated))
   \<and> (POST_planning d uuid taskId = (d', Inr st) \<longrightarrow>
        POST_planning d' uuid' taskId = (d', Inl AlreadyGenerated))"
proof (intro conjI impI)
  assume "select_task d taskId \<noteq> None \<and> 0 < count_questions d taskId"
  then show "POST_planning d uuid taskId = (d, Inl AlreadyGenerated)"
    by (auto simp: POST_planning_def split: option.splits)
next
  assume h: "POST_planning d uuid taskId = (d', Inr st)"
  note s = POST_planning_success[OF h]
  have "length (select_questions d' taskId) = count_questions d' taskId"
    by (simp add: select_questions_def count_questions_def)
  then have c: "0 < count_questions d' taskId"
    by (simp add: s(5) generated_props(1) length_template_sequence)
  from s(1) obtain t where "t \<in> set (tasks d)" "t_id t = taskId"
    by (auto simp: select_task_def find_None_iff)
  then have "\<exists>t' \<in> set (tasks d'). t_id t' = taskId"
    unfolding s(3) by (auto intro!: bexI[where x="t\<lparr>status := ''planning''\<rparr>"] simp: image_iff)
  then have t: "select_task d' taskId \<noteq> None"
    by (auto simp: select_task_def find_None_iff)
  from t c show "POST_planning d' uuid' taskId = (d', Inl AlreadyGenerated)"
    by (auto simp: POST_planning_def split: option.splits)
qed

text \<open>
  A witness of C5: the open task of the example store, and a second call on the fresh store.
\<close>

theorem generate_twice_witness:
  "select_task example_db ''t1'' \<noteq> None \<and> 0 < count_questions example_db ''t1''
   \<and> POST_planning example_db example_uuid ''t1'' = (example_db, Inl AlreadyGenerated)
   \<and> (\<exists>d' st. POST_planning fresh_db example_uuid ''t1'' = (d', Inr st)
          \<and> POST_planning d' example_uuid ''t1'' = (d', Inl AlreadyGenerated))"
proof -
  have h1: "select_task example_db ''t1'' \<noteq> None \<and> 0 < count_questions example_db ''t1''"
    by (simp add: select_task_def count_questions_def example_db_def example_question_def)
  have "\<exists>d' st. POST_planning fresh_db example_uuid ''t1'' = (d', Inr st)"
    by (simp add: POST_planning_def select_task_def count_questions_def fresh_db_def Let_def
        split: prod.splits)
  then obtain d' st where h2: "POST_planning fresh_db example_uuid ''t1'' = (d', Inr st)"
    by blast
  from generate_twice[of example_db "''t1''" example_uuid] h1
  have a: "POST_planning example_db example_uuid ''t1'' = (example_db, Inl AlreadyGenerated)"
    by blast
  from generate_twice[of fresh_db "''t1''" example_uuid d' st example_uuid] h2
  have b: "POST_planning d' example_uuid ''t1'' = (d', Inl AlreadyGenerated)"
    by blast
  from h1 a h2 b show ?thesis by blast
qed

section \<open>Reading the planning state\<close>










end
